theory Spec2Isabelle
  imports Main "HOL-Library.Char_ord" "HOL-Library.Sublist"
begin

section \<open>OMI configuration: data model\<close>

text \<open>
  The Go struct \<open>OMIConfig\<close> of \<open>builder/osc/common/omi_config.go\<close>, field by field.
  Go strings are byte sequences and \<open>len\<close> counts bytes, as \<open>length\<close> does on a
  \<open>string\<close> here. A slice is a list. \<open>OMIENASupport\<close> is a pointer to a bool, so it
  may be absent. \<open>TagMap\<close> is declared in another file of the package and is never read
  by the code below; it is the type parameter \<open>'tags\<close>.

  \<open>OMIRegionKMSKeyIDs\<close> is a Go map from string to string. The code looks keys up in
  it, takes its \<open>len\<close> and ranges over it, appending to ordered lists while it does.
  It is modelled as the list of its entries in the order \<open>range\<close> visits them (Go leaves
  that order unspecified); \<open>map_of\<close> is the lookup and \<open>length\<close> the number of
  entries. The keys of a Go map are pairwise distinct. Lemma \<open>Prepare_range_order\<close>
  shows what the order of the visit can change: the order of the errors of the first
  loop of \<open>Prepare\<close>, and nothing else.
\<close>

record 'tags OMIConfig =
  OMIName :: string
  OMIDescription :: string
  OMIVirtType :: string
  OMIUsers :: "string list"
  OMIGroups :: "string list"
  OMIProductCodes :: "string list"
  OMIRegions :: "string list"
  OMISkipRegionValidation :: bool
  OMITags :: 'tags
  OMIENASupport :: "bool option"
  OMISriovNetSupport :: bool
  OMIForceDeregister :: bool
  OMIForceDeleteSnapshot :: bool
  OMIEncryptBootVolume :: bool
  OMIKmsKeyId :: string
  OMIRegionKMSKeyIDs :: "(string \<times> string) list"
  SnapshotTags :: 'tags
  SnapshotUsers :: "string list"
  SnapshotGroups :: "string list"

text \<open>
  Modelled from the spec: the struct \<open>AccessConfig\<close> is declared outside
  \<open>omi_config.go\<close>. The spec's access context "carries the region in which the image
  build originates"; the code reads that region as the field \<open>RawRegion\<close> and nothing
  else. A nil pointer is \<open>None\<close>.
\<close>

record AccessConfig =
  RawRegion :: string

section \<open>Regular expressions of the KMS key recognizer\<close>

text \<open>
  \<open>validateKmsKey\<close> compiles four patterns with Go's \<open>regexp\<close> package and asks
  \<open>MatchString\<close> for each. The constructors below carry the names of the operators of
  Go's \<open>regexp/syntax\<close>; a character class is its list of inclusive ranges, a single
  character \<open>c\<close> being the range \<open>(c, c)\<close>. All classes and literals of the four
  patterns are ASCII, so matching bytes and matching runes agree.
\<close>

datatype regexp =
    NoMatch
  | EmptyMatch
  | CharClass "(char \<times> char) list"
  | Concat regexp regexp
  | Alternate regexp regexp
  | Star regexp

fun in_class :: "(char \<times> char) list \<Rightarrow> char \<Rightarrow> bool" where
  "in_class [] c = False"
| "in_class ((lo, hi) # rs) c = ((lo \<le> c \<and> c \<le> hi) \<or> in_class rs c)"

text \<open>A literal string, \<open>r+\<close>, \<open>r?\<close> and \<open>r{n}\<close>.\<close>

fun Literal :: "string \<Rightarrow> regexp" where
  "Literal [] = EmptyMatch"
| "Literal (c # cs) = Concat (CharClass [(c, c)]) (Literal cs)"

definition Plus :: "regexp \<Rightarrow> regexp" where
  "Plus r = Concat r (Star r)"

definition Quest :: "regexp \<Rightarrow> regexp" where
  "Quest r = Alternate r EmptyMatch"

fun Repeat :: "nat \<Rightarrow> regexp \<Rightarrow> regexp" where
  "Repeat 0 r = EmptyMatch"
| "Repeat (Suc n) r = Concat r (Repeat n r)"

text \<open>
  Each of the four patterns is \<open>^body$\<close>. Without the multi-line flag Go's \<open>^\<close> matches
  only at the beginning of the text and \<open>$\<close> only at its end, so \<open>MatchString\<close>
  reports whether the whole string matches \<open>body\<close>. The matcher consumes the string one
  character at a time: \<open>step c r\<close> is what remains to be matched of \<open>r\<close> after
  \<open>c\<close>, and the match succeeds when what remains at the end accepts the empty string.
\<close>

fun nullable :: "regexp \<Rightarrow> bool" where
  "nullable NoMatch = False"
| "nullable EmptyMatch = True"
| "nullable (CharClass rs) = False"
| "nullable (Concat r s) = (nullable r \<and> nullable s)"
| "nullable (Alternate r s) = (nullable r \<or> nullable s)"
| "nullable (Star r) = True"

fun step :: "char \<Rightarrow> regexp \<Rightarrow> regexp" where
  "step c NoMatch = NoMatch"
| "step c EmptyMatch = NoMatch"
| "step c (CharClass rs) = (if in_class rs c then EmptyMatch else NoMatch)"
| "step c (Concat r s) =
     (if nullable r then Alternate (Concat (step c r) s) (step c s)
      else Concat (step c r) s)"
| "step c (Alternate r s) = Alternate (step c r) (step c s)"
| "step c (Star r) = Concat (step c r) (Star r)"

fun MatchString :: "regexp \<Rightarrow> string \<Rightarrow> bool" where
  "MatchString r [] = nullable r"
| "MatchString r (c # cs) = MatchString (step c r) cs"

text \<open>
  The three pattern strings of the source, without the anchors:
  \<^verbatim>\<open>[a-f0-9-]+\<close>, \<^verbatim>\<open>alias/[a-zA-Z0-9:/_-]+\<close> and
  \<^verbatim>\<open>arn:aws:kms:([a-z]{2}-(gov-)?[a-z]+-\d{1})?:(\d{12}):\<close>, whose first
  parenthesised group is \<open>kmsArnRegionGroup\<close>.
  In Go \<^verbatim>\<open>\d\<close> is the ASCII class \<open>[0-9]\<close>.
\<close>

definition kmsKeyIdPattern :: regexp where
  "kmsKeyIdPattern =
     Plus (CharClass [(CHR ''a'', CHR ''f''), (CHR ''0'', CHR ''9''), (CHR ''-'', CHR ''-'')])"

definition aliasPattern :: regexp where
  "aliasPattern =
     Concat (Literal ''alias/'')
       (Plus (CharClass [(CHR ''a'', CHR ''z''), (CHR ''A'', CHR ''Z''), (CHR ''0'', CHR ''9''),
          (CHR '':'', CHR '':''), (CHR ''/'', CHR ''/''), (CHR ''_'', CHR ''_''),
          (CHR ''-'', CHR ''-'')]))"

definition kmsArnRegionGroup :: regexp where
  "kmsArnRegionGroup =
     Concat (Repeat 2 (CharClass [(CHR ''a'', CHR ''z'')]))
    (Concat (Literal ''-'')
    (Concat (Quest (Literal ''gov-''))
    (Concat (Plus (CharClass [(CHR ''a'', CHR ''z'')]))
    (Concat (Literal ''-'')
            (Repeat 1 (CharClass [(CHR ''0'', CHR ''9'')]))))))"

definition kmsArnStartPattern :: regexp where
  "kmsArnStartPattern =
     Concat (Literal ''arn:aws:kms:'')
    (Concat (Quest kmsArnRegionGroup)
    (Concat (Literal '':'')
    (Concat (Repeat 12 (CharClass [(CHR ''0'', CHR ''9'')]))
            (Literal '':''))))"

definition validateKmsKey :: "string \<Rightarrow> bool" where
  "validateKmsKey kmsKey =
     (if MatchString kmsKeyIdPattern kmsKey then True
      else if MatchString aliasPattern kmsKey then True
      else if MatchString (Concat kmsArnStartPattern (Concat (Literal ''key/'') kmsKeyIdPattern))
                kmsKey then True
      else if MatchString (Concat kmsArnStartPattern aliasPattern) kmsKey then True
      else False)"

section \<open>Region reconciliation\<close>

fun stringInSlice :: "string list \<Rightarrow> string \<Rightarrow> bool" where
  "stringInSlice [] searchstr = False"
| "stringInSlice (item # s) searchstr =
     (if item = searchstr then True else stringInSlice s searchstr)"

text \<open>
  The loop of \<open>prepareRegions\<close> over \<open>c.OMIRegions\<close>. Its state is the set
  \<open>regionSet\<close> of the regions seen, the slice \<open>regions\<close> being built and the
  errors \<open>errs\<close>; \<open>continue\<close> is the recursive call on the rest of the list. The
  \<open>log.Printf\<close> call writes to the log only and is left out.
\<close>

fun prepareRegions_loop ::
  "(string \<times> string) list \<Rightarrow> AccessConfig option \<Rightarrow> string list \<Rightarrow>
   string set \<Rightarrow> string list \<Rightarrow> string list \<Rightarrow> string list \<times> string list" where
  "prepareRegions_loop kmsKeyIDs accessConfig [] regionSet regions errs = (errs, regions)"
| "prepareRegions_loop kmsKeyIDs accessConfig (region # rest) regionSet regions errs =
     (if region \<in> regionSet
      then prepareRegions_loop kmsKeyIDs accessConfig rest regionSet regions errs
      else
        let regionSet = insert region regionSet;
            errs =
              (if length kmsKeyIDs > 0 \<and> map_of kmsKeyIDs region = None
               then errs @ [''Region '' @ region @
                            '' is in omi_regions but not in region_kms_key_ids'']
               else errs)
        in (case accessConfig of
              None \<Rightarrow>
                prepareRegions_loop kmsKeyIDs accessConfig rest regionSet (regions @ [region]) errs
            | Some a \<Rightarrow>
                if region = RawRegion a
                then prepareRegions_loop kmsKeyIDs accessConfig rest regionSet regions errs
                else prepareRegions_loop kmsKeyIDs accessConfig rest regionSet
                       (regions @ [region]) errs))"

text \<open>
  \<open>prepareRegions\<close> returns its errors; the configuration it mutates through the
  receiver pointer is returned beside them.
\<close>

definition prepareRegions ::
  "'tags OMIConfig \<Rightarrow> AccessConfig option \<Rightarrow> string list \<times> 'tags OMIConfig" where
  "prepareRegions c accessConfig =
     (if length (OMIRegions c) > 0
      then
        let (errs, regions) =
              prepareRegions_loop (OMIRegionKMSKeyIDs c) accessConfig (OMIRegions c) {} [] []
        in (errs, c\<lparr>OMIRegions := regions\<rparr>)
      else ([], c))"

section \<open>The validator\<close>

text \<open>The four \<open>range\<close> loops of \<open>Prepare\<close>, each threading the list it appends to.\<close>

fun Prepare_range_regions ::
  "string list \<Rightarrow> (string \<times> string) list \<Rightarrow> string list \<Rightarrow> string list" where
  "Prepare_range_regions omiRegions [] errs = errs"
| "Prepare_range_regions omiRegions ((kmsKeyRegion, kmsKey) # rest) errs =
     Prepare_range_regions omiRegions rest
       (if \<not> stringInSlice omiRegions kmsKeyRegion
        then errs @ [''Region '' @ kmsKeyRegion @
                     '' is in region_kms_key_ids but not in omi_regions'']
        else errs)"

fun Prepare_range_keys ::
  "string \<Rightarrow> (string \<times> string) list \<Rightarrow> string list \<Rightarrow> string list" where
  "Prepare_range_keys omiKmsKeyId [] kmsKeys = kmsKeys"
| "Prepare_range_keys omiKmsKeyId ((kmsKeyRegion, kmsKey) # rest) kmsKeys =
     Prepare_range_keys omiKmsKeyId rest
       (if length kmsKey = 0 then kmsKeys @ [omiKmsKeyId] else kmsKeys)"

fun Prepare_range_validate :: "string list \<Rightarrow> string list \<Rightarrow> string list" where
  "Prepare_range_validate [] errs = errs"
| "Prepare_range_validate (kmsKey # rest) errs =
     Prepare_range_validate rest
       (if \<not> validateKmsKey kmsKey
        then errs @ [kmsKey @ '' is not a valid KMS Key Id.'']
        else errs)"

fun Prepare_range_snapshot :: "(string \<times> string) list \<Rightarrow> string list \<Rightarrow> string list" where
  "Prepare_range_snapshot [] errs = errs"
| "Prepare_range_snapshot ((kmsKeyRegion, kmsKey) # rest) errs =
     Prepare_range_snapshot rest
       (if length kmsKey = 0
        then errs @ [''Cannot share snapshot encrypted with default KMS key'']
        else errs)"

text \<open>The local \<open>kmsKeys\<close> of \<open>Prepare\<close>, as lines 66 to 76 build it.\<close>

definition Prepare_kmsKeys :: "'tags OMIConfig \<Rightarrow> string list" where
  "Prepare_kmsKeys c =
     (let kmsKeys = [];
          kmsKeys = (if length (OMIKmsKeyId c) > 0 then kmsKeys @ [OMIKmsKeyId c] else kmsKeys);
          kmsKeys =
            (if length (OMIRegionKMSKeyIDs c) > 0
             then Prepare_range_keys (OMIKmsKeyId c) (OMIRegionKMSKeyIDs c) kmsKeys
             else kmsKeys)
      in kmsKeys)"

definition omi_name_charset_message :: string where
  "omi_name_charset_message =
     ''OMIName should only contain '' @
     ''alphanumeric characters, parentheses (()), square brackets ([]), spaces '' @
     ''( ), periods (.), slashes (/), dashes (-), single quotes ('' @ [CHR 0x27] @
     ''), at-signs '' @
     ''(@), or underscores(_). You can use the `clean_omi_name` template '' @
     ''filter to automatically clean your omi name.''"

text \<open>
  \<open>Prepare\<close>. The function \<open>templateCleanOMIName\<close> is defined outside
  \<open>omi_config.go\<close> and is the first parameter here; the interpolation context, which the
  body never reads, is left out. An error is its message. The result is the list of
  errors (Go's nil slice is the empty list) and the configuration after the call.
\<close>

definition Prepare ::
  "(string \<Rightarrow> string) \<Rightarrow> 'tags OMIConfig \<Rightarrow> AccessConfig option \<Rightarrow>
   string list \<times> 'tags OMIConfig" where
  "Prepare templateCleanOMIName c accessConfig =
     (let errs = [];
          errs = (if OMIName c = [] then errs @ [''omi_name must be specified''] else errs);
          errs =
            (if length (OMIRegionKMSKeyIDs c) > 0
             then Prepare_range_regions (OMIRegions c) (OMIRegionKMSKeyIDs c) errs
             else errs);
          (errs', c) = prepareRegions c accessConfig;
          errs = errs @ errs';
          errs =
            (if length (OMIUsers c) > 0 \<and> OMIEncryptBootVolume c
             then errs @ [''Cannot share OMI with encrypted boot volume'']
             else errs);
          kmsKeys = Prepare_kmsKeys c;
          errs = Prepare_range_validate kmsKeys errs;
          errs =
            (if length (SnapshotUsers c) > 0
             then
               let errs =
                     (if length (OMIKmsKeyId c) = 0 \<and> OMIEncryptBootVolume c
                      then errs @ [''Cannot share snapshot encrypted with default KMS key'']
                      else errs)
               in (if length (OMIRegionKMSKeyIDs c) > 0
                   then Prepare_range_snapshot (OMIRegionKMSKeyIDs c) errs
                   else errs)
             else errs);
          errs =
            (if length (OMIName c) < 3 \<or> length (OMIName c) > 128
             then errs @ [''omi_name must be between 3 and 128 characters long'']
             else errs);
          errs =
            (if OMIName c \<noteq> templateCleanOMIName (OMIName c)
             then errs @ [omi_name_charset_message]
             else errs)
      in (errs, c))"

section \<open>Specification vocabulary\<close>

subsection \<open>Regions\<close>

text \<open>
  The entries of a list in the order of their first occurrence: the head, then the
  first occurrences of the tail that differ from it.
\<close>

fun first_seen :: "'a list \<Rightarrow> 'a list" where
  "first_seen [] = []"
| "first_seen (x # xs) = x # filter (\<lambda>y. y \<noteq> x) (first_seen xs)"

text \<open>A region is the origin region when an access context is present and names it.\<close>

definition is_origin :: "AccessConfig option \<Rightarrow> string \<Rightarrow> bool" where
  "is_origin accessConfig r =
     (case accessConfig of None \<Rightarrow> False | Some a \<Rightarrow> r = RawRegion a)"

definition lacks_key :: "(string \<times> string) list \<Rightarrow> string \<Rightarrow> bool" where
  "lacks_key kmsKeyIDs r = (kmsKeyIDs \<noteq> [] \<and> r \<notin> fst ` set kmsKeyIDs)"

definition empty_valued :: "(string \<times> string) list \<Rightarrow> nat" where
  "empty_valued kmsKeyIDs = length [e \<leftarrow> kmsKeyIDs. snd e = []]"

subsection \<open>Error messages with a parameter\<close>

definition missing_key_message :: "string \<Rightarrow> string" where
  "missing_key_message r =
     ''Region '' @ r @ '' is in omi_regions but not in region_kms_key_ids''"

definition extra_key_message :: "string \<Rightarrow> string" where
  "extra_key_message r =
     ''Region '' @ r @ '' is in region_kms_key_ids but not in omi_regions''"

definition invalid_key_message :: "string \<Rightarrow> string" where
  "invalid_key_message k = k @ '' is not a valid KMS Key Id.''"

subsection \<open>The errors of each check of the validator, in closed form\<close>

definition errs_name :: "'tags OMIConfig \<Rightarrow> string list" where
  "errs_name c = (if OMIName c = [] then [''omi_name must be specified''] else [])"

definition errs_extra_keys :: "'tags OMIConfig \<Rightarrow> string list" where
  "errs_extra_keys c =
     map extra_key_message [k \<leftarrow> map fst (OMIRegionKMSKeyIDs c). k \<notin> set (OMIRegions c)]"

definition errs_missing_keys :: "'tags OMIConfig \<Rightarrow> string list" where
  "errs_missing_keys c =
     map missing_key_message
       [r \<leftarrow> first_seen (OMIRegions c). lacks_key (OMIRegionKMSKeyIDs c) r]"

definition errs_share :: "'tags OMIConfig \<Rightarrow> string list" where
  "errs_share c =
     (if OMIUsers c \<noteq> [] \<and> OMIEncryptBootVolume c
      then [''Cannot share OMI with encrypted boot volume''] else [])"

definition errs_invalid_keys :: "'tags OMIConfig \<Rightarrow> string list" where
  "errs_invalid_keys c =
     map invalid_key_message [k \<leftarrow> Prepare_kmsKeys c. \<not> validateKmsKey k]"

definition errs_snapshot :: "'tags OMIConfig \<Rightarrow> string list" where
  "errs_snapshot c =
     (if SnapshotUsers c \<noteq> []
      then (if OMIKmsKeyId c = [] \<and> OMIEncryptBootVolume c
            then [''Cannot share snapshot encrypted with default KMS key''] else []) @
           replicate (empty_valued (OMIRegionKMSKeyIDs c))
             ''Cannot share snapshot encrypted with default KMS key''
      else [])"

definition errs_length :: "'tags OMIConfig \<Rightarrow> string list" where
  "errs_length c =
     (if length (OMIName c) < 3 \<or> 128 < length (OMIName c)
      then [''omi_name must be between 3 and 128 characters long''] else [])"

definition errs_charset :: "(string \<Rightarrow> string) \<Rightarrow> 'tags OMIConfig \<Rightarrow> string list" where
  "errs_charset clean c =
     (if OMIName c \<noteq> clean (OMIName c) then [omi_name_charset_message] else [])"

subsection \<open>The four shapes of a KMS key\<close>

text \<open>
  The shapes as the specification words them: a bare key identifier is one or more
  characters from \<open>[a-f0-9-]\<close>; an alias reference is \<open>alias/\<close> followed by one
  or more characters from \<open>[a-zA-Z0-9:/_-]\<close>; an ARN starts with \<open>arn:aws:kms:\<close>,
  an optional region (two letters, a dash, an optional \<open>gov-\<close>, a word, a dash, a
  digit), a colon, a twelve-digit account and a colon, and goes on with either
  \<open>key/\<close> and a bare key identifier or an alias reference.
\<close>

definition lower_char :: "char \<Rightarrow> bool" where
  "lower_char c = (CHR ''a'' \<le> c \<and> c \<le> CHR ''z'')"

definition upper_char :: "char \<Rightarrow> bool" where
  "upper_char c = (CHR ''A'' \<le> c \<and> c \<le> CHR ''Z'')"

definition digit_char :: "char \<Rightarrow> bool" where
  "digit_char c = (CHR ''0'' \<le> c \<and> c \<le> CHR ''9'')"

definition key_id_char :: "char \<Rightarrow> bool" where
  "key_id_char c = ((CHR ''a'' \<le> c \<and> c \<le> CHR ''f'') \<or> digit_char c \<or> c = CHR ''-'')"

definition alias_char :: "char \<Rightarrow> bool" where
  "alias_char c =
     (lower_char c \<or> upper_char c \<or> digit_char c \<or>
      c = CHR '':'' \<or> c = CHR ''/'' \<or> c = CHR ''_'' \<or> c = CHR ''-'')"

definition bare_key_id :: "string \<Rightarrow> bool" where
  "bare_key_id s = (s \<noteq> [] \<and> list_all key_id_char s)"

definition alias_reference :: "string \<Rightarrow> bool" where
  "alias_reference s =
     (\<exists>body. s = ''alias/'' @ body \<and> body \<noteq> [] \<and> list_all alias_char body)"

definition region_name :: "string \<Rightarrow> bool" where
  "region_name r =
     (\<exists>two gov word digit.
        r = two @ ''-'' @ gov @ word @ ''-'' @ digit \<and>
        length two = 2 \<and> list_all lower_char two \<and>
        (gov = [] \<or> gov = ''gov-'') \<and>
        word \<noteq> [] \<and> list_all lower_char word \<and>
        length digit = 1 \<and> list_all digit_char digit)"

definition arn_start :: "string \<Rightarrow> bool" where
  "arn_start p =
     (\<exists>region account.
        p = ''arn:aws:kms:'' @ region @ '':'' @ account @ '':'' \<and>
        (region = [] \<or> region_name region) \<and>
        length account = 12 \<and> list_all digit_char account)"

definition arn_key :: "string \<Rightarrow> bool" where
  "arn_key s = (\<exists>p k. s = p @ ''key/'' @ k \<and> arn_start p \<and> bare_key_id k)"

definition arn_alias :: "string \<Rightarrow> bool" where
  "arn_alias s = (\<exists>p a. s = p @ a \<and> arn_start p \<and> alias_reference a)"

subsection \<open>The language of a regular expression\<close>

definition conc :: "string set \<Rightarrow> string set \<Rightarrow> string set" where
  "conc A B = {u @ v | u v. u \<in> A \<and> v \<in> B}"

inductive_set star :: "string set \<Rightarrow> string set" for A :: "string set" where
  star_empty: "[] \<in> star A"
| star_app: "u \<in> A \<Longrightarrow> v \<in> star A \<Longrightarrow> u @ v \<in> star A"

fun lang :: "regexp \<Rightarrow> string set" where
  "lang NoMatch = {}"
| "lang EmptyMatch = {[]}"
| "lang (CharClass rs) = {[c] | c. in_class rs c}"
| "lang (Concat r s) = conc (lang r) (lang s)"
| "lang (Alternate r s) = lang r \<union> lang s"
| "lang (Star r) = star (lang r)"

subsection \<open>A configuration for the examples\<close>

text \<open>
  A valid five-character name, no regions, no sharing, no encryption; the examples
  below update single fields of it.
\<close>

definition sample_config :: "(string \<times> string) list OMIConfig" where
  "sample_config =
     \<lparr>OMIName = ''image'', OMIDescription = [], OMIVirtType = [], OMIUsers = [],
      OMIGroups = [], OMIProductCodes = [], OMIRegions = [],
      OMISkipRegionValidation = False, OMITags = [], OMIENASupport = None,
      OMISriovNetSupport = False, OMIForceDeregister = False,
      OMIForceDeleteSnapshot = False, OMIEncryptBootVolume = False, OMIKmsKeyId = [],
      OMIRegionKMSKeyIDs = [], SnapshotTags = [], SnapshotUsers = [], SnapshotGroups = []\<rparr>"

section \<open>The loops in closed form\<close>

subsection \<open>First occurrences\<close>

lemma set_first_seen: "set (first_seen xs) = set xs"
  by (induction xs) auto

lemma distinct_first_seen: "distinct (first_seen xs)"
  by (induction xs) auto

lemma first_seen_distinct_id: "distinct xs \<Longrightarrow> first_seen xs = xs"
  by (induction xs) (auto simp: filter_id_conv)

text \<open>
  \<open>first_seen\<close> is the library's \<open>remdups\<close>, which keeps last occurrences, read
  from the other end.
\<close>

lemma first_seen_remdups: "first_seen xs = rev (remdups (rev xs))"
proof (induction xs)
  case Nil
  show ?case by simp
next
  case (Cons x xs)
  have "remdups (ys @ [x]) = filter (\<lambda>y. y \<noteq> x) (remdups ys) @ [x]" for ys
    by (induction ys) auto
  then show ?case using Cons by (simp add: rev_filter)
qed

subsection \<open>The loop of prepareRegions\<close>

lemma prepareRegions_loop_closed:
  "prepareRegions_loop kms ac xs seen regions errs =
     (errs @ map missing_key_message [r \<leftarrow> first_seen xs. r \<notin> seen \<and> lacks_key kms r],
      regions @ [r \<leftarrow> first_seen xs. r \<notin> seen \<and> \<not> is_origin ac r])"
proof (induction xs arbitrary: seen regions errs)
  case Nil
  show ?case by simp
next
  case (Cons x xs)
  show ?case
  proof (cases "x \<in> seen")
    case True
    then have "\<And>P. [r \<leftarrow> first_seen xs. r \<noteq> x \<and> r \<notin> seen \<and> P r] =
                   [r \<leftarrow> first_seen xs. r \<notin> seen \<and> P r]"
      by (intro filter_cong) auto
    with True show ?thesis by (simp add: Cons)
  next
    case False
    show ?thesis
    proof (cases ac)
      case None
      show ?thesis using False unfolding None
        by (simp add: Cons[unfolded None] Let_def missing_key_message_def lacks_key_def
            is_origin_def map_of_eq_None_iff)
    next
      case (Some a)
      show ?thesis using False unfolding Some
        by (simp add: Cons[unfolded Some] Let_def missing_key_message_def lacks_key_def
            is_origin_def map_of_eq_None_iff)
    qed
  qed
qed

lemma prepareRegions_closed:
  "prepareRegions c ac =
     (errs_missing_keys c,
      c\<lparr>OMIRegions := [r \<leftarrow> first_seen (OMIRegions c). \<not> is_origin ac r]\<rparr>)"
  by (simp add: prepareRegions_def prepareRegions_loop_closed errs_missing_keys_def)

subsection \<open>The loops of Prepare\<close>

lemma stringInSlice_set: "stringInSlice s x \<longleftrightarrow> x \<in> set s"
  by (induction s) auto

lemma Prepare_range_regions_closed:
  "Prepare_range_regions regs kms errs =
     errs @ map extra_key_message [k \<leftarrow> map fst kms. k \<notin> set regs]"
  by (induction regs kms errs rule: Prepare_range_regions.induct)
     (simp_all add: stringInSlice_set extra_key_message_def)

lemma Prepare_range_keys_closed:
  "Prepare_range_keys d kms ks = ks @ replicate (empty_valued kms) d"
  by (induction d kms ks rule: Prepare_range_keys.induct)
     (simp_all add: empty_valued_def replicate_app_Cons_same)

lemma Prepare_range_validate_closed:
  "Prepare_range_validate ks errs =
     errs @ map invalid_key_message [k \<leftarrow> ks. \<not> validateKmsKey k]"
  by (induction ks errs rule: Prepare_range_validate.induct)
     (simp_all add: invalid_key_message_def)

lemma Prepare_range_snapshot_closed:
  "Prepare_range_snapshot kms errs =
     errs @ replicate (empty_valued kms) ''Cannot share snapshot encrypted with default KMS key''"
  by (induction kms errs rule: Prepare_range_snapshot.induct)
     (simp_all add: empty_valued_def replicate_app_Cons_same)

lemma Prepare_kmsKeys_closed:
  "Prepare_kmsKeys c =
     (if OMIKmsKeyId c = [] then [] else [OMIKmsKeyId c]) @
     replicate (empty_valued (OMIRegionKMSKeyIDs c)) (OMIKmsKeyId c)"
  by (simp add: Prepare_kmsKeys_def Prepare_range_keys_closed empty_valued_def)

lemma Prepare_kmsKeys_update [simp]:
  "Prepare_kmsKeys (c\<lparr>OMIRegions := rs\<rparr>) = Prepare_kmsKeys c"
  by (simp add: Prepare_kmsKeys_def)

text \<open>
  The errors of \<open>Prepare\<close> are those of its eight checks in the order of the checks,
  all read from the configuration as it was passed in.
\<close>

lemma Prepare_closed:
  "Prepare clean c ac =
     (errs_name c @ errs_extra_keys c @ errs_missing_keys c @ errs_share c @
      errs_invalid_keys c @ errs_snapshot c @ errs_length c @ errs_charset clean c,
      c\<lparr>OMIRegions := [r \<leftarrow> first_seen (OMIRegions c). \<not> is_origin ac r]\<rparr>)"
  unfolding Prepare_def Let_def prepareRegions_closed
  by (simp add: Prepare_range_regions_closed Prepare_range_validate_closed
      Prepare_range_snapshot_closed errs_name_def errs_extra_keys_def errs_share_def
      errs_invalid_keys_def errs_snapshot_def errs_length_def errs_charset_def empty_valued_def)

subsection \<open>Telling the messages apart\<close>

lemma suffix_last: "suffix xs ys \<Longrightarrow> xs \<noteq> [] \<Longrightarrow> last ys = last xs"
  by (auto simp: suffix_def)

lemma last_extra_key_message: "last (extra_key_message r) = CHR ''s''"
  by (simp add: extra_key_message_def)

lemma last_missing_key_message: "last (missing_key_message r) = CHR ''s''"
  by (simp add: missing_key_message_def)

lemma last_invalid_key_message: "last (invalid_key_message k) = CHR ''.''"
  by (simp add: invalid_key_message_def)

lemma inj_missing_key_message: "inj missing_key_message"
  by (rule injI) (simp add: missing_key_message_def)

lemma notin_errs_extra_keys: "last m \<noteq> CHR ''s'' \<Longrightarrow> m \<notin> set (errs_extra_keys c)"
  using last_extra_key_message by (auto simp: errs_extra_keys_def)

lemma notin_errs_missing_keys: "last m \<noteq> CHR ''s'' \<Longrightarrow> m \<notin> set (errs_missing_keys c)"
  using last_missing_key_message by (auto simp: errs_missing_keys_def)

lemma notin_errs_invalid_keys: "last m \<noteq> CHR ''.'' \<Longrightarrow> m \<notin> set (errs_invalid_keys c)"
  using last_invalid_key_message by (auto simp: errs_invalid_keys_def)

lemma count_list_distinct: "distinct xs \<Longrightarrow> x \<in> set xs \<Longrightarrow> count_list xs x = 1"
  by (induction xs) auto

lemma count_list_replicate: "count_list (replicate n x) y = (if x = y then n else 0)"
  by (induction n) auto

lemma filter_map_all: "(\<And>x. P (f x)) \<Longrightarrow> filter P (map f xs) = map f xs"
  by (induction xs) auto

lemma suffix_invalid_key_message:
  "suffix '' is not a valid KMS Key Id.'' (invalid_key_message k)"
  by (simp add: invalid_key_message_def suffix_def)

lemma filter_suffix_other:
  "(\<And>e. e \<in> set es \<Longrightarrow> last e \<noteq> CHR ''.'') \<Longrightarrow>
   filter (suffix '' is not a valid KMS Key Id.'') es = []"
  by (auto simp: filter_empty_conv dest: suffix_last)

subsection \<open>The order in which the map is visited\<close>

text \<open>
  Go does not fix the order in which \<open>range\<close> visits a map, and each of the three
  loops over \<open>OMIRegionKMSKeyIDs\<close> may meet its own. Two lists with distinct keys
  and the same entries are two orders of one map. The candidate keys, the snapshot
  errors and the whole of \<open>prepareRegions\<close> are the same for both; the first loop
  of \<open>Prepare\<close> emits the same errors, in the order of the visit.
\<close>

lemma empty_valued_order:
  assumes "distinct (map fst kms)" and "distinct (map fst kms')" and "set kms = set kms'"
  shows "empty_valued kms = empty_valued kms'"
proof -
  have "distinct kms" "distinct kms'"
    using assms(1,2) by (simp_all add: distinct_map)
  then show ?thesis
    using assms(3) by (simp add: empty_valued_def distinct_length_filter)
qed

lemma Prepare_range_order:
  assumes "distinct (map fst kms)" and "distinct (map fst kms')" and "set kms = set kms'"
  shows "Prepare_range_keys d kms ks = Prepare_range_keys d kms' ks"
    and "Prepare_range_snapshot kms errs = Prepare_range_snapshot kms' errs"
    and "prepareRegions_loop kms ac xs seen regions errs =
         prepareRegions_loop kms' ac xs seen regions errs"
    and "set (Prepare_range_regions regs kms errs) = set (Prepare_range_regions regs kms' errs)"
proof -
  have e: "empty_valued kms = empty_valued kms'"
    using assms by (rule empty_valued_order)
  have l: "lacks_key kms = lacks_key kms'"
    using assms(3) by (auto simp: lacks_key_def fun_eq_iff)
  show "Prepare_range_keys d kms ks = Prepare_range_keys d kms' ks"
    by (simp add: Prepare_range_keys_closed e)
  show "Prepare_range_snapshot kms errs = Prepare_range_snapshot kms' errs"
    by (simp add: Prepare_range_snapshot_closed e)
  show "prepareRegions_loop kms ac xs seen regions errs =
        prepareRegions_loop kms' ac xs seen regions errs"
    by (simp add: prepareRegions_loop_closed l)
  show "set (Prepare_range_regions regs kms errs) = set (Prepare_range_regions regs kms' errs)"
    using assms(3) by (simp add: Prepare_range_regions_closed)
qed

section \<open>The matcher decides the language\<close>

lemma in_conc: "w \<in> conc A B \<longleftrightarrow> (\<exists>u v. w = u @ v \<and> u \<in> A \<and> v \<in> B)"
  by (auto simp: conc_def)

lemma Nil_in_conc: "[] \<in> conc A B \<longleftrightarrow> [] \<in> A \<and> [] \<in> B"
  by (simp add: in_conc)

lemma Cons_in_conc:
  "c # w \<in> conc A B \<longleftrightarrow>
     ([] \<in> A \<and> c # w \<in> B) \<or> (\<exists>u v. w = u @ v \<and> c # u \<in> A \<and> v \<in> B)"
proof
  assume "c # w \<in> conc A B"
  then obtain u v where uv: "c # w = u @ v" "u \<in> A" "v \<in> B"
    unfolding in_conc by blast
  show "([] \<in> A \<and> c # w \<in> B) \<or> (\<exists>u v. w = u @ v \<and> c # u \<in> A \<and> v \<in> B)"
  proof (cases u)
    case Nil
    with uv show ?thesis by simp
  next
    case (Cons d u')
    with uv have "w = u' @ v" "c # u' \<in> A" by simp_all
    with uv(3) show ?thesis by blast
  qed
next
  assume "([] \<in> A \<and> c # w \<in> B) \<or> (\<exists>u v. w = u @ v \<and> c # u \<in> A \<and> v \<in> B)"
  then show "c # w \<in> conc A B"
  proof
    assume "[] \<in> A \<and> c # w \<in> B"
    then have "[] @ (c # w) \<in> conc A B" unfolding in_conc by blast
    then show ?thesis by simp
  next
    assume "\<exists>u v. w = u @ v \<and> c # u \<in> A \<and> v \<in> B"
    then obtain u v where "w = u @ v" "c # u \<in> A" "v \<in> B" by blast
    then have "(c # u) @ v \<in> conc A B" unfolding in_conc by blast
    then show ?thesis using \<open>w = u @ v\<close> by simp
  qed
qed

lemma star_Cons_split:
  assumes "x \<in> star A" and "x = c # w"
  shows "\<exists>u v. w = u @ v \<and> c # u \<in> A \<and> v \<in> star A"
  using assms
proof (induction rule: star.induct)
  case star_empty
  then show ?case by simp
next
  case (star_app u v)
  show ?case
  proof (cases u)
    case Nil
    with star_app show ?thesis by simp
  next
    case (Cons d u')
    with star_app have "c # u' \<in> A" "w = u' @ v" by simp_all
    with star_app.hyps(2) show ?thesis by blast
  qed
qed

lemma Cons_in_star:
  "c # w \<in> star A \<longleftrightarrow> (\<exists>u v. w = u @ v \<and> c # u \<in> A \<and> v \<in> star A)"
proof
  assume "c # w \<in> star A"
  then show "\<exists>u v. w = u @ v \<and> c # u \<in> A \<and> v \<in> star A"
    by (rule star_Cons_split) simp
next
  assume "\<exists>u v. w = u @ v \<and> c # u \<in> A \<and> v \<in> star A"
  then obtain u v where "w = u @ v" "c # u \<in> A" "v \<in> star A" by blast
  then show "c # w \<in> star A" using star_app [of "c # u" A v] by simp
qed

lemma nullable_lang: "nullable r \<longleftrightarrow> [] \<in> lang r"
  by (induction r) (auto simp: Nil_in_conc star_empty)

lemma step_lang: "w \<in> lang (step c r) \<longleftrightarrow> c # w \<in> lang r"
proof (induction r arbitrary: w)
  case (Concat r s)
  have "w \<in> lang (step c (Concat r s)) \<longleftrightarrow>
          ([] \<in> lang r \<and> w \<in> lang (step c s)) \<or> w \<in> conc (lang (step c r)) (lang s)"
    by (auto simp: nullable_lang)
  also have "\<dots> \<longleftrightarrow>
          ([] \<in> lang r \<and> c # w \<in> lang s) \<or> (\<exists>u v. w = u @ v \<and> c # u \<in> lang r \<and> v \<in> lang s)"
    by (simp add: in_conc Concat)
  also have "\<dots> \<longleftrightarrow> c # w \<in> lang (Concat r s)"
    by (simp add: Cons_in_conc)
  finally show ?case .
next
  case (Star r)
  have "w \<in> lang (step c (Star r)) \<longleftrightarrow>
          (\<exists>u v. w = u @ v \<and> c # u \<in> lang r \<and> v \<in> star (lang r))"
    by (simp add: in_conc Star)
  also have "\<dots> \<longleftrightarrow> c # w \<in> lang (Star r)"
    by (simp add: Cons_in_star)
  finally show ?case .
qed auto

lemma MatchString_lang: "MatchString r s \<longleftrightarrow> s \<in> lang r"
  by (induction s arbitrary: r) (simp_all add: nullable_lang step_lang)

lemma in_conc_class:
  "w \<in> conc {[c] | c. P c} B \<longleftrightarrow> (case w of [] \<Rightarrow> False | c # v \<Rightarrow> P c \<and> v \<in> B)"
  by (cases w) (simp_all add: Nil_in_conc Cons_in_conc)

lemma in_conc_single: "w \<in> conc {l} B \<longleftrightarrow> (\<exists>v. w = l @ v \<and> v \<in> B)"
  unfolding in_conc by blast

lemma in_class_single: "in_class [(c, c)] d \<longleftrightarrow> d = c"
  by auto

lemma in_lang_Literal: "w \<in> lang (Literal s) \<longleftrightarrow> w = s"
proof (induction s arbitrary: w)
  case Nil
  show ?case by simp
next
  case (Cons c s)
  show ?case
    by (cases w) (auto simp: in_conc_single Cons in_class_single simp del: in_class.simps)
qed

lemma in_star_class: "s \<in> star {[c] | c. P c} \<longleftrightarrow> list_all P s"
  by (induction s) (simp_all add: Cons_in_star star_empty)

lemma lang_Plus_class:
  "s \<in> lang (Plus (CharClass rs)) \<longleftrightarrow> s \<noteq> [] \<and> list_all (in_class rs) s"
  by (cases s) (simp_all add: Plus_def in_conc_class in_star_class)

lemma lang_Repeat_class:
  "s \<in> lang (Repeat n (CharClass rs)) \<longleftrightarrow> length s = n \<and> list_all (in_class rs) s"
proof (induction n arbitrary: s)
  case 0
  show ?case by auto
next
  case (Suc n)
  show ?case by (cases s) (auto simp: Suc in_conc_class)
qed

lemma lang_Quest: "lang (Quest r) = insert [] (lang r)"
  by (auto simp: Quest_def)

section \<open>The languages of the four patterns\<close>

lemma in_lang_Concat:
  "w \<in> lang (Concat r s) \<longleftrightarrow> (\<exists>u v. w = u @ v \<and> u \<in> lang r \<and> v \<in> lang s)"
  by (simp add: in_conc)

lemma in_lang_Quest: "w \<in> lang (Quest r) \<longleftrightarrow> w = [] \<or> w \<in> lang r"
  by (auto simp: Quest_def)

lemma class_lower: "in_class [(CHR ''a'', CHR ''z'')] = lower_char"
  by (rule ext) (simp add: lower_char_def)

lemma class_digit: "in_class [(CHR ''0'', CHR ''9'')] = digit_char"
  by (rule ext) (simp add: digit_char_def)

lemma class_key_id:
  "in_class [(CHR ''a'', CHR ''f''), (CHR ''0'', CHR ''9''), (CHR ''-'', CHR ''-'')] = key_id_char"
  by (rule ext) (auto simp: key_id_char_def digit_char_def)

lemma class_alias:
  "in_class [(CHR ''a'', CHR ''z''), (CHR ''A'', CHR ''Z''), (CHR ''0'', CHR ''9''),
          (CHR '':'', CHR '':''), (CHR ''/'', CHR ''/''), (CHR ''_'', CHR ''_''),
          (CHR ''-'', CHR ''-'')] = alias_char"
  by (rule ext) (auto simp: alias_char_def lower_char_def upper_char_def digit_char_def)

lemma lang_kmsKeyIdPattern: "s \<in> lang kmsKeyIdPattern \<longleftrightarrow> bare_key_id s"
  by (simp only: kmsKeyIdPattern_def lang_Plus_class class_key_id bare_key_id_def)

lemma lang_aliasPattern: "s \<in> lang aliasPattern \<longleftrightarrow> alias_reference s"
  unfolding aliasPattern_def alias_reference_def
  by (simp only: in_lang_Concat in_lang_Literal lang_Plus_class class_alias) blast


lemma lang_ConcatI: "u \<in> lang r \<Longrightarrow> v \<in> lang s \<Longrightarrow> u @ v \<in> lang (Concat r s)"
  unfolding in_lang_Concat by blast

lemma lang_ConcatE:
  assumes "w \<in> lang (Concat r s)"
  obtains u v where "w = u @ v" "u \<in> lang r" "v \<in> lang s"
  using assms unfolding in_lang_Concat by blast

lemma lang_kmsArnRegionGroup: "s \<in> lang kmsArnRegionGroup \<longleftrightarrow> region_name s"
proof
  assume "s \<in> lang kmsArnRegionGroup"
  then obtain two v1 where 1: "s = two @ v1"
      "two \<in> lang (Repeat 2 (CharClass [(CHR ''a'', CHR ''z'')]))"
    and r1: "v1 \<in> lang (Concat (Literal ''-'') (Concat (Quest (Literal ''gov-''))
            (Concat (Plus (CharClass [(CHR ''a'', CHR ''z'')]))
            (Concat (Literal ''-'') (Repeat 1 (CharClass [(CHR ''0'', CHR ''9'')]))))))"
    unfolding kmsArnRegionGroup_def by (rule lang_ConcatE)
  from r1 obtain d1 v2 where 2: "v1 = d1 @ v2" "d1 \<in> lang (Literal ''-'')"
    and r2: "v2 \<in> lang (Concat (Quest (Literal ''gov-''))
            (Concat (Plus (CharClass [(CHR ''a'', CHR ''z'')]))
            (Concat (Literal ''-'') (Repeat 1 (CharClass [(CHR ''0'', CHR ''9'')])))))"
    by (rule lang_ConcatE)
  from r2 obtain gov v3 where 3: "v2 = gov @ v3" "gov \<in> lang (Quest (Literal ''gov-''))"
    and r3: "v3 \<in> lang (Concat (Plus (CharClass [(CHR ''a'', CHR ''z'')]))
            (Concat (Literal ''-'') (Repeat 1 (CharClass [(CHR ''0'', CHR ''9'')]))))"
    by (rule lang_ConcatE)
  from r3 obtain word v4 where 4: "v3 = word @ v4"
      "word \<in> lang (Plus (CharClass [(CHR ''a'', CHR ''z'')]))"
    and r4: "v4 \<in> lang (Concat (Literal ''-'') (Repeat 1 (CharClass [(CHR ''0'', CHR ''9'')])))"
    by (rule lang_ConcatE)
  from r4 obtain d2 digit where 5: "v4 = d2 @ digit" "d2 \<in> lang (Literal ''-'')"
      "digit \<in> lang (Repeat 1 (CharClass [(CHR ''0'', CHR ''9'')]))"
    by (rule lang_ConcatE)
  have "s = two @ ''-'' @ gov @ word @ ''-'' @ digit"
    using 1(1) 2 3(1) 4(1) 5(1,2) unfolding in_lang_Literal by simp
  moreover have "length two = 2 \<and> list_all lower_char two"
    using 1(2) unfolding lang_Repeat_class class_lower .
  moreover have "gov = [] \<or> gov = ''gov-''"
    using 3(2) unfolding in_lang_Quest in_lang_Literal .
  moreover have "word \<noteq> [] \<and> list_all lower_char word"
    using 4(2) unfolding lang_Plus_class class_lower .
  moreover have "length digit = 1 \<and> list_all digit_char digit"
    using 5(3) unfolding lang_Repeat_class class_digit .
  ultimately show "region_name s" unfolding region_name_def by blast
next
  assume "region_name s"
  then obtain two gov word digit where s: "s = two @ ''-'' @ gov @ word @ ''-'' @ digit"
    and two: "length two = 2 \<and> list_all lower_char two"
    and gov: "gov = [] \<or> gov = ''gov-''"
    and word: "word \<noteq> [] \<and> list_all lower_char word"
    and digit: "length digit = 1 \<and> list_all digit_char digit"
    unfolding region_name_def by blast
  have a: "two \<in> lang (Repeat 2 (CharClass [(CHR ''a'', CHR ''z'')]))"
    using two unfolding lang_Repeat_class class_lower .
  have b: "''-'' \<in> lang (Literal ''-'')"
    unfolding in_lang_Literal ..
  have c: "gov \<in> lang (Quest (Literal ''gov-''))"
    using gov unfolding in_lang_Quest in_lang_Literal .
  have d: "word \<in> lang (Plus (CharClass [(CHR ''a'', CHR ''z'')]))"
    using word unfolding lang_Plus_class class_lower .
  have e: "digit \<in> lang (Repeat 1 (CharClass [(CHR ''0'', CHR ''9'')]))"
    using digit unfolding lang_Repeat_class class_digit .
  have "two @ ''-'' @ gov @ word @ ''-'' @ digit \<in> lang kmsArnRegionGroup"
    unfolding kmsArnRegionGroup_def
    by (rule lang_ConcatI [OF a lang_ConcatI [OF b lang_ConcatI [OF c
          lang_ConcatI [OF d lang_ConcatI [OF b e]]]]])
  with s show "s \<in> lang kmsArnRegionGroup" by (simp only:)
qed

lemma lang_kmsArnStartPattern: "s \<in> lang kmsArnStartPattern \<longleftrightarrow> arn_start s"
proof
  assume "s \<in> lang kmsArnStartPattern"
  then obtain p v1 where 1: "s = p @ v1" "p \<in> lang (Literal ''arn:aws:kms:'')"
    and r1: "v1 \<in> lang (Concat (Quest kmsArnRegionGroup) (Concat (Literal '':'')
               (Concat (Repeat 12 (CharClass [(CHR ''0'', CHR ''9'')])) (Literal '':''))))"
    unfolding kmsArnStartPattern_def by (rule lang_ConcatE)
  from r1 obtain region v2 where 2: "v1 = region @ v2" "region \<in> lang (Quest kmsArnRegionGroup)"
    and r2: "v2 \<in> lang (Concat (Literal '':'')
               (Concat (Repeat 12 (CharClass [(CHR ''0'', CHR ''9'')])) (Literal '':'')))"
    by (rule lang_ConcatE)
  from r2 obtain c1 v3 where 3: "v2 = c1 @ v3" "c1 \<in> lang (Literal '':'')"
    and r3: "v3 \<in> lang (Concat (Repeat 12 (CharClass [(CHR ''0'', CHR ''9'')])) (Literal '':''))"
    by (rule lang_ConcatE)
  from r3 obtain account c2 where 4: "v3 = account @ c2"
      "account \<in> lang (Repeat 12 (CharClass [(CHR ''0'', CHR ''9'')]))"
      "c2 \<in> lang (Literal '':'')"
    by (rule lang_ConcatE)
  have "s = ''arn:aws:kms:'' @ region @ '':'' @ account @ '':''"
    using 1 2(1) 3 4(1,3) unfolding in_lang_Literal by simp
  moreover have "region = [] \<or> region_name region"
    using 2(2) unfolding in_lang_Quest lang_kmsArnRegionGroup .
  moreover have "length account = 12 \<and> list_all digit_char account"
    using 4(2) unfolding lang_Repeat_class class_digit .
  ultimately show "arn_start s" unfolding arn_start_def by blast
next
  assume "arn_start s"
  then obtain region account where s: "s = ''arn:aws:kms:'' @ region @ '':'' @ account @ '':''"
    and region: "region = [] \<or> region_name region"
    and account: "length account = 12 \<and> list_all digit_char account"
    unfolding arn_start_def by blast
  have a: "''arn:aws:kms:'' \<in> lang (Literal ''arn:aws:kms:'')"
    unfolding in_lang_Literal ..
  have b: "region \<in> lang (Quest kmsArnRegionGroup)"
    using region unfolding in_lang_Quest lang_kmsArnRegionGroup .
  have c: "'':'' \<in> lang (Literal '':'')"
    unfolding in_lang_Literal ..
  have d: "account \<in> lang (Repeat 12 (CharClass [(CHR ''0'', CHR ''9'')]))"
    using account unfolding lang_Repeat_class class_digit .
  have "''arn:aws:kms:'' @ region @ '':'' @ account @ '':'' \<in> lang kmsArnStartPattern"
    unfolding kmsArnStartPattern_def
    by (rule lang_ConcatI [OF a lang_ConcatI [OF b lang_ConcatI [OF c lang_ConcatI [OF d c]]]])
  with s show "s \<in> lang kmsArnStartPattern" by (simp only:)
qed

lemma lang_arn_key:
  "s \<in> lang (Concat kmsArnStartPattern (Concat (Literal ''key/'') kmsKeyIdPattern)) \<longleftrightarrow>
     arn_key s"
proof
  assume "s \<in> lang (Concat kmsArnStartPattern (Concat (Literal ''key/'') kmsKeyIdPattern))"
  then obtain p v where 1: "s = p @ v" "p \<in> lang kmsArnStartPattern"
    and r: "v \<in> lang (Concat (Literal ''key/'') kmsKeyIdPattern)"
    by (rule lang_ConcatE)
  from r obtain l k where 2: "v = l @ k" "l \<in> lang (Literal ''key/'')" "k \<in> lang kmsKeyIdPattern"
    by (rule lang_ConcatE)
  have "s = p @ ''key/'' @ k"
    using 1(1) 2(1,2) unfolding in_lang_Literal by simp
  moreover have "arn_start p" using 1(2) unfolding lang_kmsArnStartPattern .
  moreover have "bare_key_id k" using 2(3) unfolding lang_kmsKeyIdPattern .
  ultimately show "arn_key s" unfolding arn_key_def by blast
next
  assume "arn_key s"
  then obtain p k where s: "s = p @ ''key/'' @ k" and p: "arn_start p" and k: "bare_key_id k"
    unfolding arn_key_def by blast
  have a: "p \<in> lang kmsArnStartPattern" using p unfolding lang_kmsArnStartPattern .
  have b: "''key/'' \<in> lang (Literal ''key/'')" unfolding in_lang_Literal ..
  have c: "k \<in> lang kmsKeyIdPattern" using k unfolding lang_kmsKeyIdPattern .
  have "p @ ''key/'' @ k \<in>
          lang (Concat kmsArnStartPattern (Concat (Literal ''key/'') kmsKeyIdPattern))"
    by (rule lang_ConcatI [OF a lang_ConcatI [OF b c]])
  with s show "s \<in> lang (Concat kmsArnStartPattern (Concat (Literal ''key/'') kmsKeyIdPattern))"
    by (simp only:)
qed

lemma lang_arn_alias:
  "s \<in> lang (Concat kmsArnStartPattern aliasPattern) \<longleftrightarrow> arn_alias s"
  unfolding arn_alias_def
  by (simp only: in_lang_Concat lang_kmsArnStartPattern lang_aliasPattern)

lemma validateKmsKey_shapes:
  "validateKmsKey kmsKey \<longleftrightarrow>
     bare_key_id kmsKey \<or> alias_reference kmsKey \<or> arn_key kmsKey \<or> arn_alias kmsKey"
  unfolding validateKmsKey_def MatchString_lang lang_kmsKeyIdPattern lang_aliasPattern
    lang_arn_key lang_arn_alias
  by simp

lemma subseq_subset: "subseq xs ys \<Longrightarrow> set xs \<subseteq> set ys"
  by (auto elim: list_emb_set)

section \<open>Region reconciliation: the claims\<close>

text \<open>
  C1. After \<open>Prepare\<close> returns, for every configuration and access context, the
  regions of the configuration hold no entry twice, do not hold the origin region when
  an access context is present, and are the entries of the input list other than the
  origin region, in the order of their first occurrence there.
\<close>

theorem Prepare_regions_reconciled:
  "distinct (OMIRegions (snd (Prepare clean c ac))) \<and>
   (\<forall>a. ac = Some a \<longrightarrow> RawRegion a \<notin> set (OMIRegions (snd (Prepare clean c ac)))) \<and>
   set (OMIRegions (snd (Prepare clean c ac))) = {r \<in> set (OMIRegions c). \<not> is_origin ac r} \<and>
   OMIRegions (snd (Prepare clean c ac)) =
     [r \<leftarrow> first_seen (OMIRegions c). \<not> is_origin ac r]"
  by (auto simp: Prepare_closed distinct_first_seen set_first_seen is_origin_def)

theorem Prepare_regions_reconciled_witness:
  "OMIRegions (snd (Prepare (\<lambda>s. s)
       (sample_config\<lparr>OMIRegions := [''a'', ''b'', ''a'', ''c'']\<rparr>) None)) =
     [''a'', ''b'', ''c''] \<and>
   OMIRegions (snd (Prepare (\<lambda>s. s)
       (sample_config\<lparr>OMIRegions := [''a'', ''b'', ''a'', ''c'', ''b'']\<rparr>)
       (Some \<lparr>RawRegion = ''b''\<rparr>))) =
     [''a'', ''c'']"
  using
    Prepare_regions_reconciled [of "\<lambda>s. s"
      "sample_config\<lparr>OMIRegions := [''a'', ''b'', ''a'', ''c'']\<rparr>" None]
    Prepare_regions_reconciled [of "\<lambda>s. s"
      "sample_config\<lparr>OMIRegions := [''a'', ''b'', ''a'', ''c'', ''b'']\<rparr>"
      "Some \<lparr>RawRegion = ''b''\<rparr>"]
  by (simp add: is_origin_def)

text \<open>
  C3. When the map of regional keys is not empty, \<open>prepareRegions\<close> emits the error
  "Region r is in omi_regions but not in region_kms_key_ids" for the distinct regions
  \<open>r\<close> of the input list that are not keys of the map, in the order of their first
  occurrence and nothing else; so each such region gets exactly one error, however
  often it occurs. The origin region is not excepted: the access context does not
  occur in the right-hand side.
\<close>

theorem prepareRegions_missing_key_errors:
  assumes "OMIRegionKMSKeyIDs c \<noteq> []"
  shows "fst (prepareRegions c ac) =
           map missing_key_message
             [r \<leftarrow> first_seen (OMIRegions c). r \<notin> fst ` set (OMIRegionKMSKeyIDs c)] \<and>
         (\<forall>r \<in> set (OMIRegions c). r \<notin> fst ` set (OMIRegionKMSKeyIDs c) \<longrightarrow>
            count_list (fst (prepareRegions c ac))
              (''Region '' @ r @ '' is in omi_regions but not in region_kms_key_ids'') = 1)"
proof -
  let ?xs = "[r \<leftarrow> first_seen (OMIRegions c). r \<notin> fst ` set (OMIRegionKMSKeyIDs c)]"
  have eq: "fst (prepareRegions c ac) = map missing_key_message ?xs"
    using assms by (simp add: prepareRegions_closed errs_missing_keys_def lacks_key_def)
  have d: "distinct ?xs" by (simp add: distinct_first_seen)
  have "count_list (map missing_key_message ?xs) (missing_key_message r) = 1"
    if "r \<in> set (OMIRegions c)" "r \<notin> fst ` set (OMIRegionKMSKeyIDs c)" for r
  proof -
    have "r \<in> set ?xs" using that by (simp add: set_first_seen)
    then have "count_list ?xs r = 1" using d by (simp add: count_list_distinct)
    then show ?thesis by (simp add: count_list_map_conv [OF inj_missing_key_message])
  qed
  with eq show ?thesis by (simp add: missing_key_message_def)
qed

theorem prepareRegions_missing_key_errors_witness:
  "fst (prepareRegions
          (sample_config\<lparr>OMIRegions := [''a'', ''b'', ''b''],
             OMIRegionKMSKeyIDs := [(''a'', ''key1'')]\<rparr>)
          (Some \<lparr>RawRegion = ''b''\<rparr>)) =
     [''Region b is in omi_regions but not in region_kms_key_ids'']"
  using prepareRegions_missing_key_errors [of
      "sample_config\<lparr>OMIRegions := [''a'', ''b'', ''b''],
         OMIRegionKMSKeyIDs := [(''a'', ''key1'')]\<rparr>"
      "Some \<lparr>RawRegion = ''b''\<rparr>"]
  by (simp add: missing_key_message_def)

text \<open>
  C6. \<open>prepareRegions\<close> run on the configuration it returned gives the same list of
  regions again, and it emits no error that the first run did not emit: its errors
  are a subsequence of those of the first run. (It emits again the errors of the
  regions it kept; see \<open>prepareRegions_second_run_example\<close>.)
\<close>

theorem prepareRegions_idempotent:
  "OMIRegions (snd (prepareRegions (snd (prepareRegions c ac)) ac)) =
     OMIRegions (snd (prepareRegions c ac)) \<and>
   subseq (fst (prepareRegions (snd (prepareRegions c ac)) ac)) (fst (prepareRegions c ac)) \<and>
   set (fst (prepareRegions (snd (prepareRegions c ac)) ac)) \<subseteq> set (fst (prepareRegions c ac))"
proof -
  let ?out = "[r \<leftarrow> first_seen (OMIRegions c). \<not> is_origin ac r]"
  have d: "distinct ?out" by (simp add: distinct_first_seen)
  have fs: "first_seen ?out = ?out" using d by (rule first_seen_distinct_id)
  have same: "[r \<leftarrow> ?out. \<not> is_origin ac r] = ?out" by simp
  have "[r \<leftarrow> ?out. lacks_key (OMIRegionKMSKeyIDs c) r] =
        [r \<leftarrow> [r \<leftarrow> first_seen (OMIRegions c). lacks_key (OMIRegionKMSKeyIDs c) r].
           \<not> is_origin ac r]"
    by (simp add: conj_commute)
  then have sub: "subseq [r \<leftarrow> ?out. lacks_key (OMIRegionKMSKeyIDs c) r]
                        [r \<leftarrow> first_seen (OMIRegions c). lacks_key (OMIRegionKMSKeyIDs c) r]"
    by (simp only: subseq_filter_left)
  have "subseq (fst (prepareRegions (snd (prepareRegions c ac)) ac)) (fst (prepareRegions c ac))"
    using sub
    by (simp add: prepareRegions_closed errs_missing_keys_def fs subseq_map del: filter_filter)
  moreover have "OMIRegions (snd (prepareRegions (snd (prepareRegions c ac)) ac)) =
     OMIRegions (snd (prepareRegions c ac))"
    using same by (simp add: prepareRegions_closed fs del: filter_filter)
  ultimately show ?thesis using subseq_subset by blast
qed

theorem prepareRegions_idempotent_witness:
  "OMIRegions (snd (prepareRegions (snd (prepareRegions
       (sample_config\<lparr>OMIRegions := [''a'', ''b'', ''a'', ''c'']\<rparr>) (Some \<lparr>RawRegion = ''b''\<rparr>)))
       (Some \<lparr>RawRegion = ''b''\<rparr>))) = [''a'', ''c'']"
  using prepareRegions_idempotent [of
      "sample_config\<lparr>OMIRegions := [''a'', ''b'', ''a'', ''c'']\<rparr>" "Some \<lparr>RawRegion = ''b''\<rparr>"]
  by (simp add: prepareRegions_def sample_config_def)

lemma prepareRegions_second_run_example:
  "fst (prepareRegions (snd (prepareRegions
       (sample_config\<lparr>OMIRegions := [''b''], OMIRegionKMSKeyIDs := [(''a'', ''key1'')]\<rparr>) None))
       None) =
     [''Region b is in omi_regions but not in region_kms_key_ids'']"
  by (simp add: prepareRegions_def sample_config_def)

section \<open>The validator: the claims\<close>

text \<open>
  C8. \<open>Prepare\<close> changes no field of the configuration but its regions: the
  configuration after the call is the one before it with the regions replaced, so
  every other field has the value it had.
\<close>

theorem Prepare_frame:
  "snd (Prepare clean c ac) = c\<lparr>OMIRegions := OMIRegions (snd (Prepare clean c ac))\<rparr>"
  by (simp add: Prepare_closed)

theorem Prepare_frame_witness:
  "OMIName (snd (Prepare (\<lambda>s. s)
      (sample_config\<lparr>OMIRegions := [''a'', ''a''], OMIKmsKeyId := ''k''\<rparr>) None)) = ''image'' \<and>
   OMIKmsKeyId (snd (Prepare (\<lambda>s. s)
      (sample_config\<lparr>OMIRegions := [''a'', ''a''], OMIKmsKeyId := ''k''\<rparr>) None)) = ''k''"
proof -
  let ?c = "sample_config\<lparr>OMIRegions := [''a'', ''a''], OMIKmsKeyId := ''k''\<rparr>"
  let ?c' = "snd (Prepare (\<lambda>s. s) ?c None)"
  have "OMIName ?c' = OMIName (?c\<lparr>OMIRegions := OMIRegions ?c'\<rparr>)"
    "OMIKmsKeyId ?c' = OMIKmsKeyId (?c\<lparr>OMIRegions := OMIRegions ?c'\<rparr>)"
    using Prepare_frame [of "\<lambda>s. s" ?c None] by simp_all
  then show ?thesis by (simp add: sample_config_def)
qed

text \<open>
  C7. \<open>Prepare\<close> emits the error "omi_name must be between 3 and 128 characters
  long" if and only if the length of the name is not within 3 and 128, both included.
\<close>

theorem Prepare_name_length:
  "''omi_name must be between 3 and 128 characters long'' \<in> set (fst (Prepare clean c ac)) \<longleftrightarrow>
     \<not> (3 \<le> length (OMIName c) \<and> length (OMIName c) \<le> 128)"
proof -
  let ?m = "''omi_name must be between 3 and 128 characters long''"
  have "?m \<notin> set (errs_name c)" "?m \<notin> set (errs_extra_keys c)"
    "?m \<notin> set (errs_missing_keys c)" "?m \<notin> set (errs_share c)"
    "?m \<notin> set (errs_invalid_keys c)" "?m \<notin> set (errs_snapshot c)"
    "?m \<notin> set (errs_charset clean c)"
    by (simp_all add: notin_errs_extra_keys notin_errs_missing_keys notin_errs_invalid_keys
        errs_name_def errs_share_def errs_snapshot_def errs_charset_def
        omi_name_charset_message_def)
  moreover have "?m \<in> set (errs_length c) \<longleftrightarrow>
      \<not> (3 \<le> length (OMIName c) \<and> length (OMIName c) \<le> 128)"
    by (auto simp: errs_length_def)
  ultimately show ?thesis by (simp add: Prepare_closed)
qed

theorem Prepare_name_length_witness:
  "''omi_name must be between 3 and 128 characters long'' \<in>
     set (fst (Prepare (\<lambda>s. s) (sample_config\<lparr>OMIName := replicate 2 CHR ''a''\<rparr>) None)) \<and>
   ''omi_name must be between 3 and 128 characters long'' \<in>
     set (fst (Prepare (\<lambda>s. s) (sample_config\<lparr>OMIName := replicate 129 CHR ''a''\<rparr>) None)) \<and>
   ''omi_name must be between 3 and 128 characters long'' \<notin>
     set (fst (Prepare (\<lambda>s. s) (sample_config\<lparr>OMIName := replicate 3 CHR ''a''\<rparr>) None)) \<and>
   ''omi_name must be between 3 and 128 characters long'' \<notin>
     set (fst (Prepare (\<lambda>s. s) (sample_config\<lparr>OMIName := replicate 128 CHR ''a''\<rparr>) None))"
  using
    Prepare_name_length [of "\<lambda>s. s" "sample_config\<lparr>OMIName := replicate 2 CHR ''a''\<rparr>" None]
    Prepare_name_length [of "\<lambda>s. s" "sample_config\<lparr>OMIName := replicate 129 CHR ''a''\<rparr>" None]
    Prepare_name_length [of "\<lambda>s. s" "sample_config\<lparr>OMIName := replicate 3 CHR ''a''\<rparr>" None]
    Prepare_name_length [of "\<lambda>s. s" "sample_config\<lparr>OMIName := replicate 128 CHR ''a''\<rparr>" None]
  by simp

text \<open>
  C5. The error "Cannot share snapshot encrypted with default KMS key" occurs in the
  result of \<open>Prepare\<close> as follows. When there are no snapshot users it does not occur.
  When there are, it occurs once if the default key id is empty and the boot volume is
  encrypted, and once more for every entry of the map of regional keys whose value is
  empty, whatever the encryption flag.
\<close>

theorem Prepare_snapshot_sharing:
  "count_list (fst (Prepare clean c ac)) ''Cannot share snapshot encrypted with default KMS key'' =
     (if SnapshotUsers c = [] then 0
      else (if OMIKmsKeyId c = [] \<and> OMIEncryptBootVolume c then 1 else 0) +
           length [e \<leftarrow> OMIRegionKMSKeyIDs c. snd e = []])"
proof -
  let ?m = "''Cannot share snapshot encrypted with default KMS key''"
  have "?m \<notin> set (errs_name c)" "?m \<notin> set (errs_extra_keys c)"
    "?m \<notin> set (errs_missing_keys c)" "?m \<notin> set (errs_share c)"
    "?m \<notin> set (errs_invalid_keys c)" "?m \<notin> set (errs_length c)"
    "?m \<notin> set (errs_charset clean c)"
    by (simp_all add: notin_errs_extra_keys notin_errs_missing_keys notin_errs_invalid_keys
        errs_name_def errs_share_def errs_length_def errs_charset_def
        omi_name_charset_message_def)
  moreover have "count_list (errs_snapshot c) ?m =
     (if SnapshotUsers c = [] then 0
      else (if OMIKmsKeyId c = [] \<and> OMIEncryptBootVolume c then 1 else 0) +
           length [e \<leftarrow> OMIRegionKMSKeyIDs c. snd e = []])"
    by (simp add: errs_snapshot_def count_list_replicate empty_valued_def)
  ultimately show ?thesis by (simp add: Prepare_closed)
qed

theorem Prepare_snapshot_sharing_witness:
  "count_list (fst (Prepare (\<lambda>s. s)
      (sample_config\<lparr>OMIRegions := [''a'', ''b''],
         OMIRegionKMSKeyIDs := [(''a'', []), (''b'', [])],
         SnapshotUsers := [''u'']\<rparr>) None))
     ''Cannot share snapshot encrypted with default KMS key'' = 2 \<and>
   count_list (fst (Prepare (\<lambda>s. s)
      (sample_config\<lparr>OMIEncryptBootVolume := True, SnapshotUsers := [''u'']\<rparr>) None))
     ''Cannot share snapshot encrypted with default KMS key'' = 1 \<and>
   count_list (fst (Prepare (\<lambda>s. s)
      (sample_config\<lparr>OMIEncryptBootVolume := True,
         OMIRegionKMSKeyIDs := [(''a'', [])]\<rparr>) None))
     ''Cannot share snapshot encrypted with default KMS key'' = 0"
  using
    Prepare_snapshot_sharing [of "\<lambda>s. s"
      "sample_config\<lparr>OMIRegions := [''a'', ''b''],
         OMIRegionKMSKeyIDs := [(''a'', []), (''b'', [])],
         SnapshotUsers := [''u'']\<rparr>" None]
    Prepare_snapshot_sharing [of "\<lambda>s. s"
      "sample_config\<lparr>OMIEncryptBootVolume := True, SnapshotUsers := [''u'']\<rparr>" None]
    Prepare_snapshot_sharing [of "\<lambda>s. s"
      "sample_config\<lparr>OMIEncryptBootVolume := True,
         OMIRegionKMSKeyIDs := [(''a'', [])]\<rparr>" None]
  by (simp add: sample_config_def)

lemma validateKmsKey_Nil: "\<not> validateKmsKey []"
  by (simp add: validateKmsKey_shapes bare_key_id_def alias_reference_def arn_key_def
      arn_alias_def arn_start_def)

text \<open>
  C4. The candidate keys of \<open>Prepare\<close> are the default key id, if it is not empty,
  followed by one copy of the default key id for every entry of the map of regional
  keys whose value is empty. Every candidate that \<open>validateKmsKey\<close> rejects gives
  one error, the candidate followed by " is not a valid KMS Key Id.", and \<open>Prepare\<close>
  returns no other error that ends so.
\<close>

theorem Prepare_kms_candidates:
  "Prepare_kmsKeys c =
     (if OMIKmsKeyId c = [] then [] else [OMIKmsKeyId c]) @
     replicate (length [e \<leftarrow> OMIRegionKMSKeyIDs c. snd e = []]) (OMIKmsKeyId c) \<and>
   [e \<leftarrow> fst (Prepare clean c ac). suffix '' is not a valid KMS Key Id.'' e] =
     map (\<lambda>kmsKey. kmsKey @ '' is not a valid KMS Key Id.'')
       [kmsKey \<leftarrow> Prepare_kmsKeys c. \<not> validateKmsKey kmsKey]"
proof -
  let ?P = "suffix '' is not a valid KMS Key Id.''"
  have "filter ?P (errs_name c) = []" "filter ?P (errs_extra_keys c) = []"
    "filter ?P (errs_missing_keys c) = []" "filter ?P (errs_share c) = []"
    "filter ?P (errs_snapshot c) = []" "filter ?P (errs_length c) = []"
    by (rule filter_suffix_other;
        auto simp: errs_name_def errs_extra_keys_def errs_missing_keys_def errs_share_def
          errs_snapshot_def errs_length_def last_extra_key_message last_missing_key_message
          split: if_splits)+
  moreover have "filter ?P (errs_charset clean c) = []"
    by (simp add: errs_charset_def omi_name_charset_message_def suffix_to_prefix)
  moreover have "filter ?P (errs_invalid_keys c) = errs_invalid_keys c"
    by (simp add: errs_invalid_keys_def filter_map_all suffix_invalid_key_message)
  ultimately have "filter ?P (fst (Prepare clean c ac)) = errs_invalid_keys c"
    by (simp add: Prepare_closed)
  then show ?thesis
    by (simp add: Prepare_kmsKeys_closed [of c] errs_invalid_keys_def empty_valued_def
        invalid_key_message_def [abs_def])
qed

theorem Prepare_kms_candidates_witness:
  "Prepare_kmsKeys
     (sample_config\<lparr>OMIKmsKeyId := ''not-a-key!'',
        OMIRegionKMSKeyIDs := [(''a'', []), (''b'', ''alias/my-key''), (''c'', [])]\<rparr>) =
     [''not-a-key!'', ''not-a-key!'', ''not-a-key!''] \<and>
   [e \<leftarrow> fst (Prepare (\<lambda>s. s)
        (sample_config\<lparr>OMIKmsKeyId := ''not-a-key!'',
           OMIRegionKMSKeyIDs := [(''a'', []), (''b'', ''alias/my-key''), (''c'', [])]\<rparr>) None).
      suffix '' is not a valid KMS Key Id.'' e] =
     [''not-a-key! is not a valid KMS Key Id.'', ''not-a-key! is not a valid KMS Key Id.'',
      ''not-a-key! is not a valid KMS Key Id.'']"
proof -
  have "\<not> validateKmsKey ''not-a-key!''" by code_simp
  then show ?thesis
    using Prepare_kms_candidates [of
        "sample_config\<lparr>OMIKmsKeyId := ''not-a-key!'',
           OMIRegionKMSKeyIDs := [(''a'', []), (''b'', ''alias/my-key''), (''c'', [])]\<rparr>"
        "\<lambda>s. s" None]
    by (simp add: sample_config_def)
qed

text \<open>
  C9. When the default key id is the empty string, the candidate keys of \<open>Prepare\<close>
  are one empty string for every entry of the map of regional keys whose value is
  empty, and the error " is not a valid KMS Key Id." (naming the empty string) occurs
  in the result once for every such entry.
\<close>

theorem Prepare_empty_default_key:
  assumes "OMIKmsKeyId c = []"
  shows "Prepare_kmsKeys c = replicate (length [e \<leftarrow> OMIRegionKMSKeyIDs c. snd e = []]) [] \<and>
         count_list (fst (Prepare clean c ac)) '' is not a valid KMS Key Id.'' =
           length [e \<leftarrow> OMIRegionKMSKeyIDs c. snd e = []]"
proof -
  let ?m = "'' is not a valid KMS Key Id.''"
  let ?n = "length [e \<leftarrow> OMIRegionKMSKeyIDs c. snd e = []]"
  have keys: "Prepare_kmsKeys c = replicate ?n []"
    using assms by (simp add: Prepare_kmsKeys_closed empty_valued_def)
  have "?m \<notin> set (errs_name c)" "?m \<notin> set (errs_extra_keys c)"
    "?m \<notin> set (errs_missing_keys c)" "?m \<notin> set (errs_share c)"
    "?m \<notin> set (errs_snapshot c)" "?m \<notin> set (errs_length c)"
    "?m \<notin> set (errs_charset clean c)"
    by (simp_all add: notin_errs_extra_keys notin_errs_missing_keys
        errs_name_def errs_share_def errs_snapshot_def errs_length_def errs_charset_def
        omi_name_charset_message_def)
  moreover have "errs_invalid_keys c = replicate ?n ?m"
    by (simp add: errs_invalid_keys_def keys validateKmsKey_Nil invalid_key_message_def)
  ultimately have "count_list (fst (Prepare clean c ac)) ?m = ?n"
    by (simp add: Prepare_closed count_list_replicate)
  with keys show ?thesis by simp
qed

theorem Prepare_empty_default_key_witness:
  "Prepare_kmsKeys
     (sample_config\<lparr>OMIRegions := [''a'', ''b'', ''c''],
        OMIRegionKMSKeyIDs := [(''a'', []), (''b'', ''alias/my-key''), (''c'', [])]\<rparr>) = [[], []] \<and>
   count_list (fst (Prepare (\<lambda>s. s)
       (sample_config\<lparr>OMIRegions := [''a'', ''b'', ''c''],
          OMIRegionKMSKeyIDs := [(''a'', []), (''b'', ''alias/my-key''), (''c'', [])]\<rparr>) None))
     '' is not a valid KMS Key Id.'' = 2"
proof -
  let ?c = "sample_config\<lparr>OMIRegions := [''a'', ''b'', ''c''],
        OMIRegionKMSKeyIDs := [(''a'', []), (''b'', ''alias/my-key''), (''c'', [])]\<rparr>"
  have "OMIKmsKeyId ?c = []" by (simp add: sample_config_def)
  from Prepare_empty_default_key [OF this, of "\<lambda>s. s" None]
  show ?thesis by (simp add: eval_nat_numeral)
qed



section \<open>The KMS key recognizer: the claim\<close>

text \<open>
  C2. \<open>validateKmsKey\<close> is a function of its argument alone, and it returns true
  exactly for the strings of one of the four shapes: a bare key identifier, an alias
  reference, an ARN naming a key, an ARN naming an alias. It accepts
  "1234abcd-12ab-34cd-56ef-1234567890ab", "alias/my-key",
  "arn:aws:kms:us-east-1:123456789012:key/1234abcd-12ab-34cd-56ef-1234567890ab" and
  "arn:aws:kms:us-east-1:123456789012:alias/my-key", and it rejects the empty string,
  "not-a-key!" and "Alias/bad-case".
\<close>

theorem validateKmsKey_recognizes:
  "(\<forall>kmsKey. validateKmsKey kmsKey \<longleftrightarrow>
      bare_key_id kmsKey \<or> alias_reference kmsKey \<or> arn_key kmsKey \<or> arn_alias kmsKey) \<and>
   validateKmsKey ''1234abcd-12ab-34cd-56ef-1234567890ab'' \<and>
   validateKmsKey ''alias/my-key'' \<and>
   validateKmsKey
     ''arn:aws:kms:us-east-1:123456789012:key/1234abcd-12ab-34cd-56ef-1234567890ab'' \<and>
   validateKmsKey ''arn:aws:kms:us-east-1:123456789012:alias/my-key'' \<and>
   \<not> validateKmsKey '''' \<and>
   \<not> validateKmsKey ''not-a-key!'' \<and>
   \<not> validateKmsKey ''Alias/bad-case''"
proof -
  have "validateKmsKey ''1234abcd-12ab-34cd-56ef-1234567890ab''"
    by code_simp
  moreover have "validateKmsKey ''alias/my-key''"
    by code_simp
  moreover have "validateKmsKey
      ''arn:aws:kms:us-east-1:123456789012:key/1234abcd-12ab-34cd-56ef-1234567890ab''"
    by code_simp
  moreover have "validateKmsKey ''arn:aws:kms:us-east-1:123456789012:alias/my-key''"
    by code_simp
  moreover have "\<not> validateKmsKey ''''"
    by code_simp
  moreover have "\<not> validateKmsKey ''not-a-key!''"
    by code_simp
  moreover have "\<not> validateKmsKey ''Alias/bad-case''"
    by code_simp
  ultimately show ?thesis using validateKmsKey_shapes by blast
qed

theorem validateKmsKey_recognizes_witness:
  "(bare_key_id ''alias/my-key'' \<or> alias_reference ''alias/my-key'' \<or>
    arn_key ''alias/my-key'' \<or> arn_alias ''alias/my-key'') \<and>
   \<not> bare_key_id ''Alias/bad-case'' \<and> \<not> alias_reference ''Alias/bad-case'' \<and>
   \<not> arn_key ''Alias/bad-case'' \<and> \<not> arn_alias ''Alias/bad-case''"
  using validateKmsKey_recognizes by blast

section \<open>Examples\<close>

lemma Prepare_example_valid: "Prepare (\<lambda>s. s) sample_config None = ([], sample_config)"
  by (simp add: Prepare_def prepareRegions_def Prepare_kmsKeys_def sample_config_def)

lemma Prepare_example_origin:
  "Prepare (\<lambda>s. s) (sample_config\<lparr>OMIRegions := [''a'', ''b'', ''c'']\<rparr>)
     (Some \<lparr>RawRegion = ''b''\<rparr>) =
   ([], sample_config\<lparr>OMIRegions := [''a'', ''c'']\<rparr>)"
  by (simp add: Prepare_def prepareRegions_def Prepare_kmsKeys_def sample_config_def)

lemma Prepare_example_errors:
  "fst (Prepare (\<lambda>s. s)
     (sample_config\<lparr>OMIName := ''ab'', OMIRegions := [''a'', ''b''],
        OMIRegionKMSKeyIDs := [(''a'', []), (''z'', ''alias/k'')], OMIUsers := [''u''],
        OMIEncryptBootVolume := True, SnapshotUsers := [''u'']\<rparr>) None) =
   [''Region z is in region_kms_key_ids but not in omi_regions'',
    ''Region b is in omi_regions but not in region_kms_key_ids'',
    ''Cannot share OMI with encrypted boot volume'',
    '' is not a valid KMS Key Id.'',
    ''Cannot share snapshot encrypted with default KMS key'',
    ''Cannot share snapshot encrypted with default KMS key'',
    ''omi_name must be between 3 and 128 characters long'']"
  by (simp add: Prepare_def prepareRegions_def Prepare_kmsKeys_def sample_config_def
      validateKmsKey_Nil)

end
